theory Spec2Isabelle
  imports Complex_Main
begin

section \<open>Linked lists (common/list.ts)\<close>

text \<open>
  The source's \<^verbatim>\<open>List<T>\<close> is \<^verbatim>\<open>undefined | {car, cdr}\<close>: the empty list is the
  value \<^verbatim>\<open>undefined\<close>, so a test \<^verbatim>\<open>if (l)\<close> on a list is a test for non-emptiness.
  Lists are HOL lists; \<^verbatim>\<open>head\<close> and \<^verbatim>\<open>tail\<close> throw on the empty list and are only
  modelled where the source can reach them.
\<close>

definition isEmpty :: "'a list \<Rightarrow> bool" where
  "isEmpty l = (l = [])"

fun listFoldR :: "('acc \<Rightarrow> 'a \<Rightarrow> 'acc) \<Rightarrow> 'acc \<Rightarrow> 'a list \<Rightarrow> 'acc" where
  "listFoldR f init [] = init"
| "listFoldR f init (e # l) = f (listFoldR f init l) e"

fun appendList :: "'a list \<Rightarrow> 'a \<Rightarrow> 'a list" where
  "appendList [] elt = [elt]"
| "appendList (e # l) elt = e # appendList l elt"

section \<open>Positions (common/position.ts)\<close>

text \<open>TypeScript numbers holding integers are modelled as \<open>int\<close>.\<close>

datatype position = createPosition (getX: int) (getY: int)

definition positionEquals :: "position \<Rightarrow> position \<Rightarrow> bool" where
  "positionEquals p1 p2 = (getX p1 = getX p2 \<and> getY p1 = getY p2)"

text \<open>\<^verbatim>\<open>Math.sqrt\<close> on doubles is idealised as the real square root.\<close>

definition positionDistance :: "position \<Rightarrow> position \<Rightarrow> real" where
  "positionDistance pos1 pos2 =
     sqrt (real_of_int ((getX pos1 - getX pos2)\<^sup>2 + (getY pos1 - getY pos2)\<^sup>2))"

section \<open>Vertices, edges, graphs (common/vertex.ts, common/edge.ts, common/graph.ts)\<close>

datatype vertex = createVertex (pos: position) (adj: "edge list")
  and edge = createEdge (getWeight: int) (getVertex: vertex)

datatype graph = createGraph (vertexes: "vertex list") (graph_n: int)

datatype error = CantFindVertex position | ListIsEmpty | UnexpectedError

definition addEdge :: "vertex \<Rightarrow> edge \<Rightarrow> vertex" where
  "addEdge v e = createVertex (pos v) (appendList (adj v) e)"

text \<open>\<^verbatim>\<open>getVertexByPos\<close> of vertex.ts throws when no vertex has the position.\<close>

fun getVertexByPos :: "vertex list \<Rightarrow> position \<Rightarrow> error + vertex" where
  "getVertexByPos [] p = Inl (CantFindVertex p)"
| "getVertexByPos (v # vs) p =
     (if positionEquals (pos v) p then Inr v else getVertexByPos vs p)"

section \<open>Actors and the registry (actors/actors.ts)\<close>

datatype actorType = ENEMY | TOWER | SPAWNER | GOAL | WALL | UNKNOWN

text \<open>
  The fields \<^verbatim>\<open>id\<close> and \<^verbatim>\<open>type\<close> are named \<open>aid\<close> and \<open>atype\<close>. The field
  \<^verbatim>\<open>actions\<close> holds the behaviour functions; their type mentions actors and worlds, so
  it is a type parameter here. No resolver reads it.
\<close>

record 'f actor =
  aid :: int
  position :: position
  atype :: actorType
  name :: string
  health :: int
  maxHealth :: int
  actions :: 'f

definition copyActor :: "'f actor \<Rightarrow> 'f actor" where
  "copyActor anActor = anActor\<lparr>actions := actions anActor\<rparr>"

definition setLifePoint :: "'f actor \<Rightarrow> int \<Rightarrow> 'f actor" where
  "setLifePoint anActor newHealth = anActor\<lparr>health := newHealth, actions := actions anActor\<rparr>"

fun getActorById :: "'f actor list \<Rightarrow> int \<Rightarrow> 'f actor option" where
  "getActorById [] anId = None"
| "getActorById (a # as) anId =
     (if aid a = anId then Some (copyActor a) else getActorById as anId)"

fun replaceActor :: "'f actor list \<Rightarrow> 'f actor \<Rightarrow> 'f actor list" where
  "replaceActor [] newActor = []"
| "replaceActor (a # as) newActor =
     (if aid a = aid newActor then newActor # as else a # replaceActor as newActor)"

fun removeActor :: "'f actor list \<Rightarrow> int \<Rightarrow> 'f actor list" where
  "removeActor [] i = []"
| "removeActor (a # as) i = (if aid a = i then as else a # removeActor as i)"

definition getActorsAtPos :: "'f actor list \<Rightarrow> position \<Rightarrow> 'f actor list" where
  "getActorsAtPos actors p =
     listFoldR (\<lambda>acc elt. if positionEquals (position elt) p then elt # acc else acc) [] actors"

definition getActorsByType :: "'f actor list \<Rightarrow> actorType \<Rightarrow> 'f actor list" where
  "getActorsByType actors t =
     listFoldR (\<lambda>acc a. if atype a = t then appendList acc a else acc) [] actors"

definition isWalkableByEnemy :: "'f actor list \<Rightarrow> position \<Rightarrow> bool" where
  "isWalkableByEnemy actors p =
     listFoldR (\<lambda>acc a. if atype a = ENEMY \<or> atype a = GOAL then acc else False) True
       (getActorsAtPos actors p)"

section \<open>The world (world/world.ts)\<close>

text \<open>The field \<^verbatim>\<open>size\<close> is named \<open>wsize\<close>.\<close>

record world =
  graph :: graph
  wsize :: position

definition isInWorld :: "world \<Rightarrow> position \<Rightarrow> bool" where
  "isInWorld w p =
     (getX p \<ge> 0 \<and> getX p \<le> getX (wsize w) \<and> getY p \<ge> 0 \<and> getY p \<le> getY (wsize w))"

text \<open>
  \<^verbatim>\<open>createVertexesRec\<close> recurses until the current position equals the size; it does
  not return when that never happens, which is the value \<open>None\<close> here.
\<close>

partial_function (option) createVertexesRec :: "position \<Rightarrow> position \<Rightarrow> vertex list option" where
  "createVertexesRec currentPos sz =
     (if positionEquals currentPos sz then Some (appendList [] (createVertex currentPos []))
      else Option.bind
             (createVertexesRec
                (if getX currentPos \<ge> getX sz then createPosition 0 (getY currentPos + 1)
                 else createPosition (getX currentPos + 1) (getY currentPos))
                sz)
             (\<lambda>rest. Some (appendList rest (createVertex currentPos []))))"

declare createVertexesRec.simps [code]

text \<open>\<^verbatim>\<open>getVertexByPos\<close> of world.ts returns a vertex at (-1, -1) instead of throwing.\<close>

fun getVertexByPos_world :: "vertex list \<Rightarrow> position \<Rightarrow> vertex" where
  "getVertexByPos_world [] p = createVertex (createPosition (- 1) (- 1)) []"
| "getVertexByPos_world (v # vs) p =
     (if positionEquals (pos v) p then v else getVertexByPos_world vs p)"

fun addEdgesToGraphRec :: "vertex list \<Rightarrow> position \<Rightarrow> vertex list \<Rightarrow> vertex list" where
  "addEdgesToGraphRec vs sz [] = []"
| "addEdgesToGraphRec vs sz (v0 # cursor) =
     (let v1 = (if getX (pos v0) > 0
                then addEdge v0 (createEdge 1 (getVertexByPos_world vs
                       (createPosition (getX (pos v0) - 1) (getY (pos v0)))))
                else v0);
          v2 = (if getX (pos v1) < getX sz
                then addEdge v1 (createEdge 1 (getVertexByPos_world vs
                       (createPosition (getX (pos v1) + 1) (getY (pos v1)))))
                else v1);
          v3 = (if getY (pos v2) > 0
                then addEdge v2 (createEdge 1 (getVertexByPos_world vs
                       (createPosition (getX (pos v2)) (getY (pos v2) - 1))))
                else v2);
          v4 = (if getY (pos v3) < getY sz
                then addEdge v3 (createEdge 1 (getVertexByPos_world vs
                       (createPosition (getX (pos v3)) (getY (pos v3) + 1))))
                else v3)
      in appendList (addEdgesToGraphRec vs sz cursor) v4)"

definition addEdgesToGraph :: "vertex list \<Rightarrow> position \<Rightarrow> vertex list" where
  "addEdgesToGraph vs sz = addEdgesToGraphRec vs sz vs"

definition buildWorld :: "position \<Rightarrow> world option" where
  "buildWorld sz =
     Option.bind (createVertexesRec (createPosition 0 0) sz)
       (\<lambda>vs. Some \<lparr>graph = createGraph (addEdgesToGraph vs sz) (getX sz * getY sz),
                   wsize = sz\<rparr>)"

section \<open>Pathfinding (common/graph.ts)\<close>

datatype node = Node (vertex: vertex) (parent: "node option") (distance: int) (score: real)

definition makeNode :: "node option \<Rightarrow> vertex \<Rightarrow> position \<Rightarrow> node" where
  "makeNode par v dst =
     (let d = (case par of Some p \<Rightarrow> distance p + 1 | None \<Rightarrow> 0)
      in Node v par d (real_of_int d + positionDistance (pos v) dst))"

text \<open>\<^verbatim>\<open>head(nodes)\<close> throws on the empty list, before the fold starts.\<close>

fun extractClosestNode :: "node list \<Rightarrow> error + node" where
  "extractClosestNode [] = Inl ListIsEmpty"
| "extractClosestNode (n # ns) =
     Inr (listFoldR (\<lambda>acc nd. if score nd < score acc then nd else acc) n (n # ns))"

fun reconstructPath :: "node \<Rightarrow> vertex list" where
  "reconstructPath (Node v None d s) = [v]"
| "reconstructPath (Node v (Some p) d s) = appendList (reconstructPath p) v"

fun isNodeInList :: "node list \<Rightarrow> node \<Rightarrow> bool" where
  "isNodeInList [] nd = False"
| "isNodeInList (h # t) nd =
     (if positionEquals (pos (vertex h)) (pos (vertex nd)) then True else isNodeInList t nd)"

fun updateNodeInList :: "node list \<Rightarrow> node \<Rightarrow> error + node list" where
  "updateNodeInList [] nd = Inl UnexpectedError"
| "updateNodeInList (h # t) nd =
     (if positionEquals (pos (vertex h)) (pos (vertex nd))
      then (if distance nd < distance h then Inr (nd # t) else Inr (h # t))
      else (case updateNodeInList t nd of Inl err \<Rightarrow> Inl err | Inr r \<Rightarrow> Inr (h # r)))"

fun removeNodeFromList :: "node list \<Rightarrow> node \<Rightarrow> node list" where
  "removeNodeFromList [] nd = []"
| "removeNodeFromList (h # t) nd =
     (if positionEquals (pos (vertex h)) (pos (vertex nd)) then t
      else h # removeNodeFromList t nd)"

text \<open>
  The function folded over the adjacency list of the current node (graph.ts, lines 181 to
  190). An exception thrown while an edge is processed ends the fold: the accumulator is a
  sum and an error is passed on unchanged.
\<close>

definition expandEdge ::
  "node \<Rightarrow> position \<Rightarrow> graph \<Rightarrow> 'f actor list \<Rightarrow>
   error + (node list \<times> node list) \<Rightarrow> edge \<Rightarrow> error + (node list \<times> node list)" where
  "expandEdge current dst G actors acc e =
     (case acc of
        Inl err \<Rightarrow> Inl err
      | Inr (openList, closedList) \<Rightarrow>
          (case getVertexByPos (vertexes G) (pos (getVertex e)) of
             Inl err \<Rightarrow> Inl err
           | Inr v \<Rightarrow>
               (let neighbor = makeNode (Some current) v dst in
                if isNodeInList closedList neighbor then Inr (openList, closedList)
                else if \<not> isWalkableByEnemy actors (pos (vertex neighbor))
                then Inr (openList, neighbor # closedList)
                else if \<not> isNodeInList openList neighbor
                then Inr (appendList openList neighbor, closedList)
                else (case updateNodeInList openList neighbor of
                        Inl err \<Rightarrow> Inl err
                      | Inr ol \<Rightarrow> Inr (ol, closedList)))))"

text \<open>
  The search loop. It is a recursion with no structural bound, so a run that never
  returns is the value \<open>None\<close>; a thrown exception is \<open>Some (Inl err)\<close>.
\<close>

partial_function (option) pathfindingRec ::
  "node list \<Rightarrow> node list \<Rightarrow> position \<Rightarrow> graph \<Rightarrow> 'f actor list \<Rightarrow>
   (error + vertex list) option" where
  "pathfindingRec openList closedList dst G actors =
     (if isEmpty openList then Some (Inr [])
      else case extractClosestNode openList of
             Inl err \<Rightarrow> Some (Inl err)
           | Inr current \<Rightarrow>
               if positionEquals (pos (vertex current)) dst
               then Some (Inr (reconstructPath current))
               else (case listFoldR (expandEdge current dst G actors)
                            (Inr (removeNodeFromList openList current,
                                  appendList closedList current))
                            (adj (vertex current)) of
                       Inl err \<Rightarrow> Some (Inl err)
                     | Inr (openList', closedList') \<Rightarrow>
                         pathfindingRec openList' closedList' dst G actors))"

definition pathfinding ::
  "position \<Rightarrow> position \<Rightarrow> graph \<Rightarrow> 'f actor list \<Rightarrow> (error + vertex list) option" where
  "pathfinding src dst G actors =
     (case getVertexByPos (vertexes G) src of
        Inl err \<Rightarrow> Some (Inl err)
      | Inr v \<Rightarrow> pathfindingRec [makeNode None v dst] [] dst G actors)"

section \<open>Game over (engine/engine.ts)\<close>

datatype winner = Winner_ENEMY | Winner_TOWER | Winner_NONE

definition gameIsOver :: "world \<Rightarrow> 'f actor list \<Rightarrow> winner" where
  "gameIsOver aWorld actors =
     (if isEmpty (getActorsByType actors ENEMY) \<and> isEmpty (getActorsByType actors SPAWNER)
      then Winner_TOWER
      else if isEmpty (getActorsByType actors GOAL) then Winner_ENEMY
      else Winner_NONE)"

section \<open>Phase resolvers (engine/phases.ts)\<close>

text \<open>
  A move or spawn proposal is an actor or \<^verbatim>\<open>undefined\<close> (\<open>'f actor option\<close>). An attack
  or heal proposal is a list of pairs, where \<^verbatim>\<open>undefined\<close> is the empty list.
\<close>

record attack =
  attack_id :: int
  damage :: int

record healing =
  heal_id :: int
  heal :: int

definition moveResolver ::
  "world \<Rightarrow> 'f actor list \<Rightarrow> 'f actor option list \<Rightarrow> world \<times> 'f actor list" where
  "moveResolver aWorld actors proposals =
     listFoldR (\<lambda>acc proposal.
        case proposal of
          Some p \<Rightarrow> if isInWorld aWorld (position p) then (fst acc, replaceActor (snd acc) p)
                    else acc
        | None \<Rightarrow> acc)
       (aWorld, actors) proposals"

text \<open>The inner function of the attack resolver (phases.ts, lines 123 to 131).\<close>

definition attackPair :: "world \<times> 'f actor list \<Rightarrow> attack \<Rightarrow> world \<times> 'f actor list" where
  "attackPair acc2 atk =
     (case getActorById (snd acc2) (attack_id atk) of
        Some anActor \<Rightarrow>
          if health anActor \<le> damage atk
          then (fst acc2, removeActor (snd acc2) (aid anActor))
          else (fst acc2,
                replaceActor (snd acc2) (setLifePoint anActor (health anActor - damage atk)))
      | None \<Rightarrow> acc2)"

definition attackResolver ::
  "world \<Rightarrow> 'f actor list \<Rightarrow> attack list list \<Rightarrow> world \<times> 'f actor list" where
  "attackResolver aWorld actors proposals =
     listFoldR (\<lambda>acc proposal.
        if proposal \<noteq> [] then listFoldR attackPair acc proposal else acc)
       (aWorld, actors) proposals"

definition spawnResolver ::
  "world \<Rightarrow> 'f actor list \<Rightarrow> 'f actor option list \<Rightarrow> world \<times> 'f actor list" where
  "spawnResolver aWorld actors proposals =
     listFoldR (\<lambda>acc proposal.
        case proposal of
          Some p \<Rightarrow> (fst acc, appendList actors p)
        | None \<Rightarrow> acc)
       (aWorld, actors) proposals"

text \<open>The inner function of the heal resolver (phases.ts, lines 149 to 157).\<close>

definition healPair :: "world \<times> 'f actor list \<Rightarrow> healing \<Rightarrow> world \<times> 'f actor list" where
  "healPair acc2 h =
     (case getActorById (snd acc2) (heal_id h) of
        Some anActor \<Rightarrow>
          if health anActor + heal h > maxHealth anActor
          then (fst acc2, replaceActor (snd acc2) (setLifePoint anActor (maxHealth anActor)))
          else (fst acc2,
                replaceActor (snd acc2) (setLifePoint anActor (health anActor + heal h)))
      | None \<Rightarrow> acc2)"

definition healResolver ::
  "world \<Rightarrow> 'f actor list \<Rightarrow> healing list list \<Rightarrow> world \<times> 'f actor list" where
  "healResolver aWorld actors proposals =
     listFoldR (\<lambda>acc proposal.
        if proposal \<noteq> [] then listFoldR healPair acc proposal else acc)
       (aWorld, actors) proposals"

section \<open>Notions used in the statements\<close>

text \<open>
  A path is clear of blocked cells when each of its vertices, other than those at the
  source position, is on a cell walkable by enemies.
\<close>

definition clearOf :: "'f actor list \<Rightarrow> position \<Rightarrow> vertex list \<Rightarrow> bool" where
  "clearOf actors src path =
     (\<forall>v\<in>set path. pos v \<noteq> src \<longrightarrow> isWalkableByEnemy actors (pos v))"

text \<open>
  The positions of the rectangle from \<open>(0, 0)\<close> to \<open>(X, Y)\<close>, row by row; \<open>gridFrom x y\<close>
  starts in row \<open>y\<close> at column \<open>x\<close>.
\<close>

definition gridRow :: "int \<Rightarrow> int \<Rightarrow> int \<Rightarrow> position list" where
  "gridRow x X y = map (\<lambda>i. createPosition i y) [x..X]"

definition gridFrom :: "int \<Rightarrow> int \<Rightarrow> int \<Rightarrow> int \<Rightarrow> position list" where
  "gridFrom x y X Y = gridRow x X y @ concat (map (gridRow 0 X) [y + 1..Y])"

section \<open>Actor templates (actors/actorsTemplate.ts) and other values used in examples\<close>

text \<open>The templates are given without their behaviour functions (\<open>actions = ()\<close>).\<close>

definition createEmptyGraph :: graph where
  "createEmptyGraph = createGraph [] 0"

definition setActorPosition :: "'f actor \<Rightarrow> position \<Rightarrow> 'f actor" where
  "setActorPosition anActor newPosition =
     anActor\<lparr>position := newPosition, actions := actions anActor\<rparr>"

definition remyWithSpoon :: "unit actor" where
  "remyWithSpoon = \<lparr>aid = - 1, position = createPosition 0 5, atype = ENEMY,
     name = ''Remy with a Spoon'', health = 200, maxHealth = 200, actions = ()\<rparr>"

definition gusteauWithPan :: "unit actor" where
  "gusteauWithPan = \<lparr>aid = - 1, position = createPosition 5 5, atype = TOWER,
     name = ''Gusteau with a Pan'', health = 200, maxHealth = 200, actions = ()\<rparr>"

definition linguini :: "unit actor" where
  "linguini = \<lparr>aid = - 1, position = createPosition 8 5, atype = GOAL,
     name = ''Linguini'', health = 50, maxHealth = 50, actions = ()\<rparr>"

definition worktop :: "unit actor" where
  "worktop = \<lparr>aid = - 1, position = createPosition 1 1, atype = WALL,
     name = ''Worktop'', health = 1000, maxHealth = 1000, actions = ()\<rparr>"

definition hole :: "unit actor" where
  "hole = \<lparr>aid = - 1, position = createPosition 0 5, atype = SPAWNER,
     name = ''Hole'', health = 20, maxHealth = 20, actions = ()\<rparr>"

lemmas templates = remyWithSpoon_def gusteauWithPan_def linguini_def worktop_def hole_def

section \<open>Basic facts about lists and the registry\<close>

lemma appendList_snoc: "appendList l e = l @ [e]"
  by (induction l) simp_all

lemma copyActor_id [simp]: "copyActor a = a"
  by (simp add: copyActor_def)

lemma positionEquals_eq [simp]: "positionEquals p q \<longleftrightarrow> p = q"
  by (cases p; cases q) (simp add: positionEquals_def)

lemma listFoldR_append: "listFoldR f init (p @ q) = listFoldR f (listFoldR f init q) p"
  by (induction p) simp_all

lemma listFoldR_nested:
  "listFoldR (\<lambda>acc p. if p \<noteq> [] then listFoldR f acc p else acc) init ps
     = listFoldR f init (concat ps)"
  by (induction ps) (simp_all add: listFoldR_append)

lemma getActorsByType_rev: "getActorsByType actors t = rev (filter (\<lambda>a. atype a = t) actors)"
  unfolding getActorsByType_def by (induction actors) (simp_all add: appendList_snoc)

lemma getActorsAtPos_filter: "getActorsAtPos actors p = filter (\<lambda>a. position a = p) actors"
  unfolding getActorsAtPos_def by (induction actors) simp_all

lemma isWalkableByEnemy_iff:
  "isWalkableByEnemy actors p \<longleftrightarrow>
     (\<forall>a \<in> set actors. position a = p \<longrightarrow> atype a = ENEMY \<or> atype a = GOAL)"
proof -
  have "listFoldR (\<lambda>acc a. if atype a = ENEMY \<or> atype a = GOAL then acc else False) True xs
          \<longleftrightarrow> (\<forall>a \<in> set xs. atype a = ENEMY \<or> atype a = GOAL)" for xs :: "'a actor list"
    by (induction xs) auto
  then show ?thesis
    by (auto simp: isWalkableByEnemy_def getActorsAtPos_filter)
qed


lemma getActorById_mem: "getActorById reg i = Some a \<Longrightarrow> a \<in> set reg"
  by (induction reg) (auto split: if_splits)



lemma map_aid_replaceActor_list: "map aid (replaceActor reg b) = map aid reg"
  by (induction reg) auto

lemma getActorById_replaceActor:
  "getActorById (replaceActor reg b) i =
     (if i = aid b \<and> aid b \<in> aid ` set reg then Some b else getActorById reg i)"
  by (induction reg) auto


lemma set_replaceActor: "set (replaceActor reg b) \<subseteq> insert b (set reg)"
  by (induction reg) auto

lemma set_removeActor: "set (removeActor reg i) \<subseteq> set reg"
  by (induction reg) auto




lemma fst_attackPair: "fst (attackPair acc a) = fst acc"
  by (simp add: attackPair_def split: option.splits)

lemma fst_healPair: "fst (healPair acc a) = fst acc"
  by (simp add: healPair_def split: option.splits)

lemma fst_fold_attackPair: "fst (listFoldR attackPair acc p) = fst acc"
  by (induction p) (simp_all add: fst_attackPair)

lemma fst_fold_healPair: "fst (listFoldR healPair acc p) = fst acc"
  by (induction p) (simp_all add: fst_healPair)

section \<open>The end of the game\<close>

text \<open>
  Claim C5. For every registry, \<open>gameIsOver\<close> returns TOWER when the registry holds no
  ENEMY and no SPAWNER actor, whatever else it holds; otherwise it returns ENEMY when the
  registry holds no GOAL actor; otherwise NONE. The TOWER test comes first.
\<close>

theorem gameIsOver_cases:
  "gameIsOver w actors =
     (if length (filter (\<lambda>a. atype a = ENEMY) actors) = 0
         \<and> length (filter (\<lambda>a. atype a = SPAWNER) actors) = 0
      then Winner_TOWER
      else if length (filter (\<lambda>a. atype a = GOAL) actors) = 0 then Winner_ENEMY
      else Winner_NONE)"
  by (simp add: gameIsOver_def isEmpty_def getActorsByType_rev)

theorem gameIsOver_cases_witness:
  "gameIsOver \<lparr>graph = createEmptyGraph, wsize = createPosition 10 10\<rparr> [linguini, worktop]
     = Winner_TOWER
   \<and> gameIsOver \<lparr>graph = createEmptyGraph, wsize = createPosition 10 10\<rparr> [remyWithSpoon, worktop]
     = Winner_ENEMY
   \<and> gameIsOver \<lparr>graph = createEmptyGraph, wsize = createPosition 10 10\<rparr> [hole, linguini]
     = Winner_NONE
   \<and> gameIsOver \<lparr>graph = createEmptyGraph, wsize = createPosition 10 10\<rparr> ([] :: unit actor list)
     = Winner_TOWER"
  using gameIsOver_cases [of "\<lparr>graph = createEmptyGraph, wsize = createPosition 10 10\<rparr>"
      "[linguini, worktop]"]
    gameIsOver_cases [of "\<lparr>graph = createEmptyGraph, wsize = createPosition 10 10\<rparr>"
      "[remyWithSpoon, worktop]"]
    gameIsOver_cases [of "\<lparr>graph = createEmptyGraph, wsize = createPosition 10 10\<rparr>"
      "[hole, linguini]"]
    gameIsOver_cases [of "\<lparr>graph = createEmptyGraph, wsize = createPosition 10 10\<rparr>"
      "[] :: unit actor list"]
  by (simp add: templates)

section \<open>The resolvers\<close>

text \<open>
  Claim C9. For each of the four resolvers (move, attack, spawn, heal), every world,
  registry and proposal list, the world component of the result is the input world.
\<close>

theorem resolvers_keep_world:
  "fst (moveResolver w actors mp) = w \<and> fst (attackResolver w actors ap) = w
   \<and> fst (spawnResolver w actors sp) = w \<and> fst (healResolver w actors hp) = w"
proof (intro conjI)
  show "fst (moveResolver w actors mp) = w"
    unfolding moveResolver_def by (induction mp) (simp_all split: option.splits)
  show "fst (attackResolver w actors ap) = w"
    by (simp add: attackResolver_def listFoldR_nested fst_fold_attackPair)
  show "fst (spawnResolver w actors sp) = w"
    unfolding spawnResolver_def by (induction sp) (simp_all split: option.splits)
  show "fst (healResolver w actors hp) = w"
    by (simp add: healResolver_def listFoldR_nested fst_fold_healPair)
qed

lemma attackResolver_concat:
  "attackResolver w actors proposals = listFoldR attackPair (w, actors) (concat proposals)"
  by (simp add: attackResolver_def listFoldR_nested)

lemma healResolver_concat:
  "healResolver w actors proposals = listFoldR healPair (w, actors) (concat proposals)"
  by (simp add: healResolver_def listFoldR_nested)









lemma health_removeActor:
  assumes "\<forall>a\<in>set reg. 0 < health a \<and> health a \<le> maxHealth a"
  shows "\<forall>a\<in>set (removeActor reg i). 0 < health a \<and> health a \<le> maxHealth a"
  using assms set_removeActor [of reg i] by blast

lemma health_replaceActor:
  assumes "\<forall>a\<in>set reg. 0 < health a \<and> health a \<le> maxHealth a"
    and "0 < health b \<and> health b \<le> maxHealth b"
  shows "\<forall>a\<in>set (replaceActor reg b). 0 < health a \<and> health a \<le> maxHealth a"
  using assms set_replaceActor [of reg b] by blast

lemma attackPair_health:
  assumes "\<forall>a\<in>set reg. 0 < health a \<and> health a \<le> maxHealth a" and "0 \<le> damage atk"
  shows "\<forall>a\<in>set (snd (attackPair (w, reg) atk)). 0 < health a \<and> health a \<le> maxHealth a"
proof (cases "getActorById reg (attack_id atk)")
  case None
  with assms show ?thesis by (simp add: attackPair_def)
next
  case (Some b)
  then have b: "0 < health b \<and> health b \<le> maxHealth b"
    using assms(1) getActorById_mem by blast
  show ?thesis
  proof (cases "health b \<le> damage atk")
    case True
    then have "snd (attackPair (w, reg) atk) = removeActor reg (aid b)"
      using Some by (simp add: attackPair_def)
    then show ?thesis using health_removeActor [OF assms(1), of "aid b"] by (simp only:)
  next
    case False
    let ?b' = "setLifePoint b (health b - damage atk)"
    have eq: "snd (attackPair (w, reg) atk) = replaceActor reg ?b'"
      using Some False by (simp add: attackPair_def)
    have "0 < health ?b' \<and> health ?b' \<le> maxHealth ?b'"
      using False b assms(2) by (simp add: setLifePoint_def)
    from health_replaceActor [OF assms(1) this] show ?thesis
      by (simp only: eq)
  qed
qed

lemma healPair_health:
  assumes "\<forall>a\<in>set reg. 0 < health a \<and> health a \<le> maxHealth a" and "0 \<le> heal h"
  shows "\<forall>a\<in>set (snd (healPair (w, reg) h)). 0 < health a \<and> health a \<le> maxHealth a"
proof (cases "getActorById reg (heal_id h)")
  case None
  with assms show ?thesis by (simp add: healPair_def)
next
  case (Some b)
  then have b: "0 < health b \<and> health b \<le> maxHealth b"
    using assms(1) getActorById_mem by blast
  let ?b' = "setLifePoint b (min (health b + heal h) (maxHealth b))"
  have eq: "snd (healPair (w, reg) h) = replaceActor reg ?b'"
    using Some by (simp add: healPair_def min_def)
  have "0 < health ?b' \<and> health ?b' \<le> maxHealth ?b'"
    using b assms(2) by (simp add: setLifePoint_def)
  from health_replaceActor [OF assms(1) this] show ?thesis
    by (simp only: eq)
qed

lemma fold_attackPair_health:
  assumes "\<forall>a\<in>set reg. 0 < health a \<and> health a \<le> maxHealth a"
    and "\<forall>atk\<in>set atks. 0 \<le> damage atk"
  shows "\<forall>a\<in>set (snd (listFoldR attackPair (w, reg) atks)).
           0 < health a \<and> health a \<le> maxHealth a"
  using assms(2)
proof (induction atks)
  case Nil
  with assms(1) show ?case by simp
next
  case (Cons atk atks)
  obtain w' reg' where eq: "listFoldR attackPair (w, reg) atks = (w', reg')"
    by (cases "listFoldR attackPair (w, reg) atks")
  with Cons have "\<forall>a\<in>set reg'. 0 < health a \<and> health a \<le> maxHealth a" by simp
  moreover have "0 \<le> damage atk" using Cons.prems by simp
  ultimately show ?case using eq attackPair_health [of reg' atk w'] by simp
qed

lemma fold_healPair_health:
  assumes "\<forall>a\<in>set reg. 0 < health a \<and> health a \<le> maxHealth a"
    and "\<forall>h\<in>set hs. 0 \<le> heal h"
  shows "\<forall>a\<in>set (snd (listFoldR healPair (w, reg) hs)).
           0 < health a \<and> health a \<le> maxHealth a"
  using assms(2)
proof (induction hs)
  case Nil
  with assms(1) show ?case by simp
next
  case (Cons h hs)
  obtain w' reg' where eq: "listFoldR healPair (w, reg) hs = (w', reg')"
    by (cases "listFoldR healPair (w, reg) hs")
  with Cons have "\<forall>a\<in>set reg'. 0 < health a \<and> health a \<le> maxHealth a" by simp
  moreover have "0 \<le> heal h" using Cons.prems by simp
  ultimately show ?case using eq healPair_health [of reg' h w'] by simp
qed

text \<open>
  Claim C8. If every actor of the registry has \<open>0 < health \<le> maxHealth\<close>, then so has
  every actor of the registry returned by the attack resolver when all damages are
  non-negative, and every actor of the registry returned by the heal resolver when all
  heal amounts are non-negative.
\<close>

theorem health_bounds_preserved:
  assumes "\<forall>a\<in>set actors. 0 < health a \<and> health a \<le> maxHealth a"
  shows "((\<forall>p\<in>set ap. \<forall>atk\<in>set p. 0 \<le> damage atk) \<longrightarrow>
            (\<forall>a\<in>set (snd (attackResolver w actors ap)). 0 < health a \<and> health a \<le> maxHealth a))
       \<and> ((\<forall>p\<in>set hp. \<forall>h\<in>set p. 0 \<le> heal h) \<longrightarrow>
            (\<forall>a\<in>set (snd (healResolver w actors hp)). 0 < health a \<and> health a \<le> maxHealth a))"
proof (intro conjI impI)
  assume "\<forall>p\<in>set ap. \<forall>atk\<in>set p. 0 \<le> damage atk"
  then have "\<forall>atk\<in>set (concat ap). 0 \<le> damage atk" by auto
  from fold_attackPair_health [OF assms this]
  show "\<forall>a\<in>set (snd (attackResolver w actors ap)). 0 < health a \<and> health a \<le> maxHealth a"
    by (simp only: attackResolver_concat)
next
  assume "\<forall>p\<in>set hp. \<forall>h\<in>set p. 0 \<le> heal h"
  then have "\<forall>h\<in>set (concat hp). 0 \<le> heal h" by auto
  from fold_healPair_health [OF assms this]
  show "\<forall>a\<in>set (snd (healResolver w actors hp)). 0 < health a \<and> health a \<le> maxHealth a"
    by (simp only: healResolver_concat)
qed

theorem health_bounds_preserved_witness:
  "list_all (\<lambda>a. 0 < health a \<and> health a \<le> maxHealth a)
      [gusteauWithPan\<lparr>aid := 1\<rparr>, linguini\<lparr>aid := 2\<rparr>]
   \<and> list_all (list_all (\<lambda>atk. 0 \<le> damage atk))
         [[\<lparr>attack_id = 2, damage = 20\<rparr>],
          [\<lparr>attack_id = 2, damage = 30\<rparr>, \<lparr>attack_id = 1, damage = 10\<rparr>]]
   \<and> list_all (\<lambda>a. 0 < health a \<and> health a \<le> maxHealth a)
         (snd (attackResolver \<lparr>graph = createEmptyGraph, wsize = createPosition 10 10\<rparr>
            [gusteauWithPan\<lparr>aid := 1\<rparr>, linguini\<lparr>aid := 2\<rparr>]
            [[\<lparr>attack_id = 2, damage = 20\<rparr>],
             [\<lparr>attack_id = 2, damage = 30\<rparr>, \<lparr>attack_id = 1, damage = 10\<rparr>]]))
   \<and> list_all (list_all (\<lambda>h. 0 \<le> heal h))
         [[\<lparr>heal_id = 1, heal = 10\<rparr>], [\<lparr>heal_id = 2, heal = 5\<rparr>]]
   \<and> list_all (\<lambda>a. 0 < health a \<and> health a \<le> maxHealth a)
         (snd (healResolver \<lparr>graph = createEmptyGraph, wsize = createPosition 10 10\<rparr>
            [gusteauWithPan\<lparr>aid := 1\<rparr>, linguini\<lparr>aid := 2\<rparr>]
            [[\<lparr>heal_id = 1, heal = 10\<rparr>], [\<lparr>heal_id = 2, heal = 5\<rparr>]]))"
proof -
  have inv: "\<forall>a\<in>set [gusteauWithPan\<lparr>aid := 1\<rparr>, linguini\<lparr>aid := 2\<rparr>].
               0 < health a \<and> health a \<le> maxHealth a"
    by (simp add: templates)
  have dmg: "\<forall>p\<in>set [[\<lparr>attack_id = 2, damage = 20\<rparr>],
         [\<lparr>attack_id = 2, damage = 30\<rparr>, \<lparr>attack_id = 1, damage = 10\<rparr>]].
           \<forall>atk\<in>set p. 0 \<le> damage atk"
    by simp
  have hl: "\<forall>p\<in>set [[\<lparr>heal_id = 1, heal = 10\<rparr>], [\<lparr>heal_id = 2, heal = 5\<rparr>]].
           \<forall>h\<in>set p. 0 \<le> heal h"
    by simp
  from health_bounds_preserved [OF inv,
      of "[[\<lparr>attack_id = 2, damage = 20\<rparr>],
         [\<lparr>attack_id = 2, damage = 30\<rparr>, \<lparr>attack_id = 1, damage = 10\<rparr>]]"
      "\<lparr>graph = createEmptyGraph, wsize = createPosition 10 10\<rparr>"
      "[[\<lparr>heal_id = 1, heal = 10\<rparr>], [\<lparr>heal_id = 2, heal = 5\<rparr>]]"]
  show ?thesis using inv dmg hl unfolding list_all_iff by blast
qed

lemma fst_spawnResolver: "fst (spawnResolver w actors qs) = w"
  unfolding spawnResolver_def by (induction qs) (simp_all split: option.splits)

lemma spawnResolver_Some: "spawnResolver w actors (Some p # ps) = (w, appendList actors p)"
proof -
  have "spawnResolver w actors (Some p # ps)
          = (fst (spawnResolver w actors ps), appendList actors p)"
    by (simp add: spawnResolver_def)
  then show ?thesis by (simp add: fst_spawnResolver)
qed

lemma spawnResolver_None: "spawnResolver w actors (None # ps) = spawnResolver w actors ps"
  by (simp add: spawnResolver_def)

lemma spawnResolver_Nil: "spawnResolver w actors [] = (w, actors)"
  by (simp add: spawnResolver_def)

lemma spawnResolver_first:
  "spawnResolver w actors qs =
     (w, case filter (\<lambda>x. x \<noteq> None) qs of [] \<Rightarrow> actors | x # xs \<Rightarrow> actors @ [the x])"
proof (induction qs)
  case Nil
  show ?case by (simp add: spawnResolver_Nil)
next
  case (Cons q qs)
  show ?case
  proof (cases q)
    case None
    with Cons show ?thesis by (simp add: spawnResolver_None)
  next
    case (Some a)
    then show ?thesis by (simp add: spawnResolver_Some appendList_snoc)
  qed
qed

text \<open>
  Claim C3. A spawn proposal naming an actor is appended to the registry the phase started
  with, not to the accumulator. So the result is the starting registry when no proposal
  names an actor, and otherwise the starting registry with one actor appended: the one of
  the first naming proposal of the list, which the right-to-left fold processes last. With
  two or more naming proposals the result still has exactly one more entry.
\<close>

theorem spawn_appends_to_snapshot:
  "spawnResolver w actors (Some p # ps) = (w, appendList actors p)
   \<and> spawnResolver w actors (None # ps) = spawnResolver w actors ps
   \<and> spawnResolver w actors [] = (w, actors)
   \<and> spawnResolver w actors proposals =
       (w, case filter (\<lambda>x. x \<noteq> None) proposals of
             [] \<Rightarrow> actors
           | x # xs \<Rightarrow> actors @ [the x])
   \<and> (2 \<le> length (filter (\<lambda>x. x \<noteq> None) proposals) \<longrightarrow>
        length (snd (spawnResolver w actors proposals)) = length actors + 1)"
proof (intro conjI impI)
  show "spawnResolver w actors (Some p # ps) = (w, appendList actors p)"
    by (rule spawnResolver_Some)
  show "spawnResolver w actors (None # ps) = spawnResolver w actors ps"
    by (rule spawnResolver_None)
  show "spawnResolver w actors [] = (w, actors)"
    by (rule spawnResolver_Nil)
  show "spawnResolver w actors proposals =
       (w, case filter (\<lambda>x. x \<noteq> None) proposals of
             [] \<Rightarrow> actors
           | x # xs \<Rightarrow> actors @ [the x])"
    by (rule spawnResolver_first)
  show "length (snd (spawnResolver w actors proposals)) = length actors + 1"
    if "2 \<le> length (filter (\<lambda>x. x \<noteq> None) proposals)"
    using that
    by (cases "filter (\<lambda>x. x \<noteq> None) proposals") (simp_all add: spawnResolver_first)
qed

theorem spawn_appends_to_snapshot_witness:
  "2 \<le> length (filter (\<lambda>x. x \<noteq> None)
           [Some (remyWithSpoon\<lparr>aid := 7\<rparr>), None, Some (remyWithSpoon\<lparr>aid := 8\<rparr>)])
   \<and> spawnResolver \<lparr>graph = createEmptyGraph, wsize = createPosition 10 10\<rparr> [hole\<lparr>aid := 1\<rparr>, hole\<lparr>aid := 2\<rparr>]
        [Some (remyWithSpoon\<lparr>aid := 7\<rparr>), None, Some (remyWithSpoon\<lparr>aid := 8\<rparr>)]
      = (\<lparr>graph = createEmptyGraph, wsize = createPosition 10 10\<rparr>, [hole\<lparr>aid := 1\<rparr>, hole\<lparr>aid := 2\<rparr>, remyWithSpoon\<lparr>aid := 7\<rparr>])
   \<and> length (snd (spawnResolver \<lparr>graph = createEmptyGraph, wsize = createPosition 10 10\<rparr> [hole\<lparr>aid := 1\<rparr>, hole\<lparr>aid := 2\<rparr>]
        [Some (remyWithSpoon\<lparr>aid := 7\<rparr>), None, Some (remyWithSpoon\<lparr>aid := 8\<rparr>)])) = 3"
  using spawn_appends_to_snapshot [of "\<lparr>graph = createEmptyGraph, wsize = createPosition 10 10\<rparr>" "[hole\<lparr>aid := 1\<rparr>, hole\<lparr>aid := 2\<rparr>]"
      "remyWithSpoon\<lparr>aid := 7\<rparr>" "[None, Some (remyWithSpoon\<lparr>aid := 8\<rparr>)]"
      "[Some (remyWithSpoon\<lparr>aid := 7\<rparr>), None, Some (remyWithSpoon\<lparr>aid := 8\<rparr>)]"]
  by simp

lemma fst_moveResolver: "fst (moveResolver w actors ps) = w"
  unfolding moveResolver_def by (induction ps) (simp_all split: option.splits)

lemma moveResolver_Nil: "moveResolver w actors [] = (w, actors)"
  by (simp add: moveResolver_def)

lemma moveResolver_None: "moveResolver w actors (None # ps) = moveResolver w actors ps"
  by (simp add: moveResolver_def)

lemma moveResolver_Some:
  "moveResolver w actors (Some p # ps) =
     (if isInWorld w (position p) then (w, replaceActor (snd (moveResolver w actors ps)) p)
      else moveResolver w actors ps)"
proof -
  have "moveResolver w actors (Some p # ps) =
     (if isInWorld w (position p)
      then (fst (moveResolver w actors ps), replaceActor (snd (moveResolver w actors ps)) p)
      else moveResolver w actors ps)"
    by (simp add: moveResolver_def)
  then show ?thesis by (simp add: fst_moveResolver)
qed

lemma map_aid_moveResolver: "map aid (snd (moveResolver w actors ps)) = map aid actors"
proof (induction ps)
  case Nil
  show ?case by (simp add: moveResolver_Nil)
next
  case (Cons q ps)
  then show ?case
    by (cases q) (simp_all add: moveResolver_None moveResolver_Some map_aid_replaceActor_list)
qed

lemma aid_set_moveResolver: "aid ` set (snd (moveResolver w actors ps)) = aid ` set actors"
  using map_aid_moveResolver [of w actors ps] by (metis set_map)

lemma moveResolver_out_of_bounds:
  assumes "\<forall>q. Some q \<in> set ps \<and> aid q = i \<longrightarrow> \<not> isInWorld w (position q)"
  shows "getActorById (snd (moveResolver w actors ps)) i = getActorById actors i"
  using assms
proof (induction ps)
  case Nil
  show ?case by (simp add: moveResolver_Nil)
next
  case (Cons q ps)
  have IH: "getActorById (snd (moveResolver w actors ps)) i = getActorById actors i"
    using Cons by simp
  show ?case
  proof (cases q)
    case None
    with IH show ?thesis by (simp add: moveResolver_None)
  next
    case (Some p)
    show ?thesis
    proof (cases "isInWorld w (position p)")
      case False
      with Some IH show ?thesis by (simp add: moveResolver_Some)
    next
      case True
      then have "aid p \<noteq> i" using Cons.prems Some by auto
      with True Some IH show ?thesis
        by (simp add: moveResolver_Some getActorById_replaceActor)
    qed
  qed
qed

lemma moveResolver_in_bounds:
  assumes "Some p \<in> set ps" and "isInWorld w (position p)" and "aid p \<in> aid ` set actors"
    and "\<forall>q. Some q \<in> set ps \<and> aid q = aid p \<longrightarrow> q = p"
  shows "getActorById (snd (moveResolver w actors ps)) (aid p) = Some p"
  using assms(1,4)
proof (induction ps)
  case Nil
  then show ?case by simp
next
  case (Cons q ps)
  have ids: "aid p \<in> aid ` set (snd (moveResolver w actors ps))"
    using assms(3) by (simp only: aid_set_moveResolver)
  show ?case
  proof (cases "q = Some p")
    case True
    with assms(2) ids show ?thesis
      by (simp add: moveResolver_Some getActorById_replaceActor)
  next
    case False
    then have mem: "Some p \<in> set ps" using Cons.prems(1) by simp
    have uniq: "\<forall>q. Some q \<in> set ps \<and> aid q = aid p \<longrightarrow> q = p"
      using Cons.prems(2) by simp
    have IH: "getActorById (snd (moveResolver w actors ps)) (aid p) = Some p"
      using Cons.IH [OF mem uniq] .
    show ?thesis
    proof (cases q)
      case None
      with IH show ?thesis by (simp add: moveResolver_None)
    next
      case (Some p')
      then have "aid p' \<noteq> aid p" using False Cons.prems(2) by auto
      with Some IH show ?thesis
        by (simp add: moveResolver_Some getActorById_replaceActor)
    qed
  qed
qed

text \<open>
  Claim C6. The move resolver replaces, for a proposal whose position is within the world
  bounds, the registry entry of that id by the proposed actor, and drops a proposal whose
  position is out of bounds. The ids of the registry and their order never change. When a
  proposal is in bounds, its id is in the registry and no other proposal has its id, the
  entry of that id after the phase is the proposed actor. When every proposal with id \<open>i\<close>
  is out of bounds, the entry of \<open>i\<close> after the phase is the entry before the phase.
\<close>

theorem move_in_bounds_replaces_else_dropped:
  "moveResolver w actors (Some p # ps) =
     (if isInWorld w (position p) then (w, replaceActor (snd (moveResolver w actors ps)) p)
      else moveResolver w actors ps)
   \<and> map aid (snd (moveResolver w actors proposals)) = map aid actors
   \<and> (Some p \<in> set proposals \<and> isInWorld w (position p) \<and> aid p \<in> aid ` set actors
        \<and> (\<forall>q. Some q \<in> set proposals \<and> aid q = aid p \<longrightarrow> q = p)
      \<longrightarrow> getActorById (snd (moveResolver w actors proposals)) (aid p) = Some p)
   \<and> ((\<forall>q. Some q \<in> set proposals \<and> aid q = i \<longrightarrow> \<not> isInWorld w (position q))
      \<longrightarrow> getActorById (snd (moveResolver w actors proposals)) i = getActorById actors i)"
proof (intro conjI impI)
  show "moveResolver w actors (Some p # ps) =
     (if isInWorld w (position p) then (w, replaceActor (snd (moveResolver w actors ps)) p)
      else moveResolver w actors ps)"
    by (rule moveResolver_Some)
  show "map aid (snd (moveResolver w actors proposals)) = map aid actors"
    by (rule map_aid_moveResolver)
next
  assume a: "Some p \<in> set proposals \<and> isInWorld w (position p) \<and> aid p \<in> aid ` set actors
        \<and> (\<forall>q. Some q \<in> set proposals \<and> aid q = aid p \<longrightarrow> q = p)"
  show "getActorById (snd (moveResolver w actors proposals)) (aid p) = Some p"
    by (rule moveResolver_in_bounds) (use a in blast)+
next
  assume "\<forall>q. Some q \<in> set proposals \<and> aid q = i \<longrightarrow> \<not> isInWorld w (position q)"
  then show "getActorById (snd (moveResolver w actors proposals)) i = getActorById actors i"
    by (rule moveResolver_out_of_bounds)
qed

theorem move_in_bounds_replaces_else_dropped_witness:
  "isInWorld \<lparr>graph = createEmptyGraph, wsize = createPosition 10 10\<rparr> (position (remyWithSpoon\<lparr>aid := 1, position := createPosition 1 5\<rparr>))
   \<and> \<not> isInWorld \<lparr>graph = createEmptyGraph, wsize = createPosition 10 10\<rparr> (position (remyWithSpoon\<lparr>aid := 2, position := createPosition 11 5\<rparr>))
   \<and> moveResolver \<lparr>graph = createEmptyGraph, wsize = createPosition 10 10\<rparr> [remyWithSpoon\<lparr>aid := 1\<rparr>, remyWithSpoon\<lparr>aid := 2\<rparr>]
        [Some (remyWithSpoon\<lparr>aid := 1, position := createPosition 1 5\<rparr>),
         Some (remyWithSpoon\<lparr>aid := 2, position := createPosition 11 5\<rparr>)]
      = (\<lparr>graph = createEmptyGraph, wsize = createPosition 10 10\<rparr>, [remyWithSpoon\<lparr>aid := 1, position := createPosition 1 5\<rparr>,
                 remyWithSpoon\<lparr>aid := 2\<rparr>])
   \<and> getActorById (snd (moveResolver \<lparr>graph = createEmptyGraph, wsize = createPosition 10 10\<rparr> [remyWithSpoon\<lparr>aid := 1\<rparr>, remyWithSpoon\<lparr>aid := 2\<rparr>]
        [Some (remyWithSpoon\<lparr>aid := 1, position := createPosition 1 5\<rparr>),
         Some (remyWithSpoon\<lparr>aid := 2, position := createPosition 11 5\<rparr>)])) 1
      = Some (remyWithSpoon\<lparr>aid := 1, position := createPosition 1 5\<rparr>)
   \<and> getActorById (snd (moveResolver \<lparr>graph = createEmptyGraph, wsize = createPosition 10 10\<rparr> [remyWithSpoon\<lparr>aid := 1\<rparr>, remyWithSpoon\<lparr>aid := 2\<rparr>]
        [Some (remyWithSpoon\<lparr>aid := 1, position := createPosition 1 5\<rparr>),
         Some (remyWithSpoon\<lparr>aid := 2, position := createPosition 11 5\<rparr>)])) 2
      = Some (remyWithSpoon\<lparr>aid := 2\<rparr>)"
  using move_in_bounds_replaces_else_dropped [of "\<lparr>graph = createEmptyGraph, wsize = createPosition 10 10\<rparr>"
      "[remyWithSpoon\<lparr>aid := 1\<rparr>, remyWithSpoon\<lparr>aid := 2\<rparr>]"
      "remyWithSpoon\<lparr>aid := 1, position := createPosition 1 5\<rparr>"
      "[Some (remyWithSpoon\<lparr>aid := 2, position := createPosition 11 5\<rparr>)]"
      "[Some (remyWithSpoon\<lparr>aid := 1, position := createPosition 1 5\<rparr>),
         Some (remyWithSpoon\<lparr>aid := 2, position := createPosition 11 5\<rparr>)]" 2]
    move_in_bounds_replaces_else_dropped [of "\<lparr>graph = createEmptyGraph, wsize = createPosition 10 10\<rparr>"
      "[remyWithSpoon\<lparr>aid := 1\<rparr>, remyWithSpoon\<lparr>aid := 2\<rparr>]"
      "remyWithSpoon\<lparr>aid := 2, position := createPosition 11 5\<rparr>"
      "[]" "[]" 2]
  by (simp add: templates isInWorld_def moveResolver_def)

section \<open>World construction\<close>

lemma gridFrom_last: "gridFrom X Y X Y = [createPosition X Y]"
  by (simp add: gridFrom_def gridRow_def)

lemma gridFrom_row_end:
  "y < Y \<Longrightarrow> gridFrom X y X Y = createPosition X y # gridFrom 0 (y + 1) X Y"
  by (simp add: gridFrom_def gridRow_def upto_rec1 [of "y + 1" Y])

lemma gridFrom_step:
  "x < X \<Longrightarrow> gridFrom x y X Y = createPosition x y # gridFrom (x + 1) y X Y"
  by (simp add: gridFrom_def gridRow_def upto_rec1 [of x X])

lemma createVertexesRec_grid:
  assumes "0 \<le> x" "x \<le> X" "y \<le> Y"
  shows "createVertexesRec (createPosition x y) (createPosition X Y)
           = Some (rev (map (\<lambda>p. createVertex p []) (gridFrom x y X Y)))"
  using assms
proof (induction "nat ((Y - y) * (X + 1) + (X - x))" arbitrary: x y rule: less_induct)
  case less
  show ?case
  proof (cases "x = X \<and> y = Y")
    case True
    then show ?thesis
      by (subst createVertexesRec.simps) (simp add: gridFrom_last)
  next
    case notlast: False
    show ?thesis
    proof (cases "x = X")
      case True
      then have yY: "y < Y" using notlast less.prems by simp
      have e: "(Y - (y + 1)) * (X + 1) = (Y - y) * (X + 1) - (X + 1)"
        by (simp add: algebra_simps)
      have "0 < (Y - y) * (X + 1)"
        using yY less.prems True by (intro mult_pos_pos) simp_all
      then have m: "nat ((Y - (y + 1)) * (X + 1) + (X - 0)) < nat ((Y - y) * (X + 1) + (X - x))"
        unfolding e using True by simp
      have "createVertexesRec (createPosition 0 (y + 1)) (createPosition X Y)
              = Some (rev (map (\<lambda>p. createVertex p []) (gridFrom 0 (y + 1) X Y)))"
        using less.hyps [OF m] less.prems yY True by simp
      then show ?thesis
        using True yY
        by (subst createVertexesRec.simps) (simp add: gridFrom_row_end appendList_snoc)
    next
      case False
      then have xX: "x < X" using less.prems by simp
      have "0 \<le> (Y - y) * (X + 1)"
        using xX less.prems by (intro mult_nonneg_nonneg) simp_all
      then have m: "nat ((Y - y) * (X + 1) + (X - (x + 1))) < nat ((Y - y) * (X + 1) + (X - x))"
        using xX by simp
      have "createVertexesRec (createPosition (x + 1) y) (createPosition X Y)
              = Some (rev (map (\<lambda>p. createVertex p []) (gridFrom (x + 1) y X Y)))"
        using less.hyps [OF m] less.prems xX by simp
      then show ?thesis
        using xX
        by (subst createVertexesRec.simps) (simp add: gridFrom_step appendList_snoc)
    qed
  qed
qed

lemma pos_addEdge: "pos (addEdge v e) = pos v"
  by (simp add: addEdge_def)

lemma map_pos_addEdgesToGraphRec: "map pos (addEdgesToGraphRec vs sz cur) = rev (map pos cur)"
  by (induction cur) (simp_all add: Let_def pos_addEdge appendList_snoc)

lemma buildWorld_grid:
  assumes "0 \<le> X" "0 \<le> Y"
  shows "\<exists>w. buildWorld (createPosition X Y) = Some w
             \<and> map pos (vertexes (graph w)) = gridFrom 0 0 X Y
             \<and> graph_n (graph w) = X * Y \<and> wsize w = createPosition X Y"
  using createVertexesRec_grid [of 0 X 0 Y] assms
  by (simp add: buildWorld_def addEdgesToGraph_def map_pos_addEdgesToGraphRec rev_map comp_def)

lemma gridFrom_origin: "0 \<le> Y \<Longrightarrow> gridFrom 0 0 X Y = concat (map (gridRow 0 X) [0..Y])"
  by (simp add: gridFrom_def upto_rec1 [of 0 Y])

lemma length_concat_rows: "length (concat (map (gridRow 0 X) js)) = length js * nat (X + 1)"
  by (induction js) (simp_all add: gridRow_def)

lemma length_gridFrom:
  "0 \<le> X \<Longrightarrow> 0 \<le> Y \<Longrightarrow> int (length (gridFrom 0 0 X Y)) = (X + 1) * (Y + 1)"
  by (simp add: gridFrom_origin length_concat_rows nat_mult_distrib algebra_simps)

lemma set_gridFrom:
  "0 \<le> Y \<Longrightarrow> set (gridFrom 0 0 X Y)
     = {p. 0 \<le> getX p \<and> getX p \<le> X \<and> 0 \<le> getY p \<and> getY p \<le> Y}"
proof -
  assume Y: "0 \<le> Y"
  have "set (gridFrom 0 0 X Y) = (\<Union>j\<in>{0..Y}. (\<lambda>i. createPosition i j) ` {0..X})"
    by (simp add: gridFrom_origin Y gridRow_def)
  also have "\<dots> = {p. 0 \<le> getX p \<and> getX p \<le> X \<and> 0 \<le> getY p \<and> getY p \<le> Y}"
  proof (intro set_eqI iffI)
    fix p assume "p \<in> (\<Union>j\<in>{0..Y}. (\<lambda>i. createPosition i j) ` {0..X})"
    then show "p \<in> {p. 0 \<le> getX p \<and> getX p \<le> X \<and> 0 \<le> getY p \<and> getY p \<le> Y}" by auto
  next
    fix p assume p: "p \<in> {p. 0 \<le> getX p \<and> getX p \<le> X \<and> 0 \<le> getY p \<and> getY p \<le> Y}"
    have "p = createPosition (getX p) (getY p)" by simp
    with p show "p \<in> (\<Union>j\<in>{0..Y}. (\<lambda>i. createPosition i j) ` {0..X})"
      by (metis (mono_tags, lifting) UN_iff atLeastAtMost_iff image_eqI mem_Collect_eq)
  qed
  finally show ?thesis .
qed

lemma distinct_gridFrom: "0 \<le> Y \<Longrightarrow> distinct (gridFrom 0 0 X Y)"
proof -
  assume Y: "0 \<le> Y"
  have "distinct (concat (map (gridRow 0 X) js))" if "distinct js" for js
    using that
  proof (induction js)
    case Nil
    show ?case by simp
  next
    case (Cons j js)
    have "distinct (gridRow 0 X j)"
      by (simp add: gridRow_def distinct_map inj_on_def)
    moreover have "set (gridRow 0 X j) \<inter> set (concat (map (gridRow 0 X) js)) = {}"
      using Cons.prems by (auto simp: gridRow_def)
    ultimately show ?case using Cons by simp
  qed
  then show ?thesis by (simp add: gridFrom_origin Y)
qed

text \<open>
  For every size with non-negative coordinates \<open>buildWorld\<close> returns a world whose graph has
  exactly one vertex at each position of the rectangle, \<open>(X + 1) * (Y + 1)\<close> vertices in all,
  and whose stored count is \<open>X * Y\<close>, which is never the number of vertices.
\<close>

lemma buildWorld_vertices_and_count:
  assumes "0 \<le> X" "0 \<le> Y"
  shows "\<exists>w. buildWorld (createPosition X Y) = Some w
             \<and> distinct (map pos (vertexes (graph w)))
             \<and> pos ` set (vertexes (graph w))
                 = {p. 0 \<le> getX p \<and> getX p \<le> X \<and> 0 \<le> getY p \<and> getY p \<le> Y}
             \<and> int (length (vertexes (graph w))) = (X + 1) * (Y + 1)
             \<and> graph_n (graph w) = X * Y
             \<and> graph_n (graph w) \<noteq> int (length (vertexes (graph w)))"
proof -
  obtain w where w: "buildWorld (createPosition X Y) = Some w"
    and vs: "map pos (vertexes (graph w)) = gridFrom 0 0 X Y"
    and n: "graph_n (graph w) = X * Y"
    using buildWorld_grid [OF assms] by blast
  have d: "distinct (map pos (vertexes (graph w)))"
    unfolding vs using assms(2) by (rule distinct_gridFrom)
  have "pos ` set (vertexes (graph w)) = set (map pos (vertexes (graph w)))" by simp
  then have s: "pos ` set (vertexes (graph w))
      = {p. 0 \<le> getX p \<and> getX p \<le> X \<and> 0 \<le> getY p \<and> getY p \<le> Y}"
    unfolding vs using assms(2) by (simp only: set_gridFrom)
  have "length (vertexes (graph w)) = length (map pos (vertexes (graph w)))" by simp
  then have l: "int (length (vertexes (graph w))) = (X + 1) * (Y + 1)"
    unfolding vs using assms by (simp only: length_gridFrom)
  have "X * Y < (X + 1) * (Y + 1)" using assms by (simp add: algebra_simps)
  with n l have "graph_n (graph w) \<noteq> int (length (vertexes (graph w)))" by simp
  with w d s l n show ?thesis by blast
qed

lemma buildWorld_2_2:
  "buildWorld (createPosition 2 2) = Some
  \<lparr>graph =
     createGraph
      [createVertex (createPosition 0 0)
        [createEdge 1 (createVertex (createPosition 1 0) []),
         createEdge 1 (createVertex (createPosition 0 1) [])],
       createVertex (createPosition 1 0)
        [createEdge 1 (createVertex (createPosition 0 0) []),
         createEdge 1 (createVertex (createPosition 2 0) []),
         createEdge 1 (createVertex (createPosition 1 1) [])],
       createVertex (createPosition 2 0)
        [createEdge 1 (createVertex (createPosition 1 0) []),
         createEdge 1 (createVertex (createPosition 2 1) [])],
       createVertex (createPosition 0 1)
        [createEdge 1 (createVertex (createPosition 1 1) []),
         createEdge 1 (createVertex (createPosition 0 0) []),
         createEdge 1 (createVertex (createPosition 0 2) [])],
       createVertex (createPosition 1 1)
        [createEdge 1 (createVertex (createPosition 0 1) []),
         createEdge 1 (createVertex (createPosition 2 1) []),
         createEdge 1 (createVertex (createPosition 1 0) []),
         createEdge 1 (createVertex (createPosition 1 2) [])],
       createVertex (createPosition 2 1)
        [createEdge 1 (createVertex (createPosition 1 1) []),
         createEdge 1 (createVertex (createPosition 2 0) []),
         createEdge 1 (createVertex (createPosition 2 2) [])],
       createVertex (createPosition 0 2)
        [createEdge 1 (createVertex (createPosition 1 2) []),
         createEdge 1 (createVertex (createPosition 0 1) [])],
       createVertex (createPosition 1 2)
        [createEdge 1 (createVertex (createPosition 0 2) []),
         createEdge 1 (createVertex (createPosition 2 2) []),
         createEdge 1 (createVertex (createPosition 1 1) [])],
       createVertex (createPosition 2 2)
        [createEdge 1 (createVertex (createPosition 1 2) []),
         createEdge 1 (createVertex (createPosition 2 1) [])]]
      4,
     wsize = createPosition 2 2\<rparr>"
  by code_simp

text \<open>
  Claim C4, at size (2, 2). The graph of \<open>buildWorld\<close> has one vertex for each of the nine
  positions of the rectangle, but the stored count is \<open>2 * 2 = 4\<close>, not
  \<open>(2 + 1) * (2 + 1) = 9\<close>. The lemma \<open>buildWorld_vertices_and_count\<close> gives the vertices
  and the count for every size with non-negative coordinates.
\<close>

theorem buildWorld_count_at_2_2:
  "map_option (\<lambda>w. (map pos (vertexes (graph w)), graph_n (graph w)))
     (buildWorld (createPosition 2 2))
   = Some ([createPosition 0 0, createPosition 1 0, createPosition 2 0,
            createPosition 0 1, createPosition 1 1, createPosition 2 1,
            createPosition 0 2, createPosition 1 2, createPosition 2 2], 4)"
  by (simp add: buildWorld_2_2)

section \<open>Pathfinding\<close>

lemma getVertexByPos_Inr: "getVertexByPos vs p = Inr v \<Longrightarrow> pos v = p \<and> v \<in> set vs"
  by (induction vs) (auto split: if_splits)

lemma getVertexByPos_absent:
  "p \<notin> pos ` set vs \<Longrightarrow> getVertexByPos vs p = Inl (CantFindVertex p)"
  by (induction vs) auto

lemma getVertexByPos_present:
  "p \<in> pos ` set vs \<Longrightarrow> \<exists>v. getVertexByPos vs p = Inr v"
  by (induction vs) auto

lemma listFoldR_choice:
  "listFoldR (\<lambda>acc nd. if score nd < score acc then nd else acc) n ns \<in> insert n (set ns)"
  by (induction ns) auto

lemma extractClosestNode_mem: "extractClosestNode ns = Inr c \<Longrightarrow> c \<in> set ns"
  using listFoldR_choice [of "hd ns" ns] by (cases ns) auto

lemma set_removeNodeFromList: "set (removeNodeFromList ns nd) \<subseteq> set ns"
  by (induction ns) auto

lemma set_updateNodeInList:
  "updateNodeInList ns nd = Inr r \<Longrightarrow> set r \<subseteq> insert nd (set ns)"
  by (induction ns arbitrary: r) (auto split: if_splits sum.splits)

lemma reconstructPath_child:
  "reconstructPath (makeNode (Some c) v dst) = reconstructPath c @ [v]"
  by (simp add: makeNode_def Let_def appendList_snoc)

lemma reconstructPath_root: "reconstructPath (makeNode None v dst) = [v]"
  by (simp add: makeNode_def)

lemma vertex_makeNode: "vertex (makeNode par v dst) = v"
  by (simp add: makeNode_def Let_def)

lemma expandEdge_clear:
  assumes "\<forall>n\<in>set ol. clearOf actors src (reconstructPath n)"
    and "clearOf actors src (reconstructPath current)"
    and "expandEdge current dst G actors (Inr (ol, cl)) e = Inr (ol', cl')"
  shows "\<forall>n\<in>set ol'. clearOf actors src (reconstructPath n)"
proof (cases "getVertexByPos (vertexes G) (pos (getVertex e))")
  case (Inl err)
  with assms(3) show ?thesis by (simp add: expandEdge_def)
next
  case (Inr v)
  let ?nb = "makeNode (Some current) v dst"
  have nb: "isWalkableByEnemy actors (pos v) \<Longrightarrow> clearOf actors src (reconstructPath ?nb)"
    using assms(2) by (simp add: reconstructPath_child clearOf_def)
  show ?thesis
  proof (cases "isNodeInList cl ?nb")
    case True
    with Inr assms(1,3) show ?thesis by (simp add: expandEdge_def)
  next
    case notclosed: False
    show ?thesis
    proof (cases "isWalkableByEnemy actors (pos v)")
      case False
      with Inr notclosed assms(1,3) show ?thesis
        by (simp add: expandEdge_def vertex_makeNode)
    next
      case walk: True
      show ?thesis
      proof (cases "isNodeInList ol ?nb")
        case False
        with Inr notclosed walk assms(1,3) nb show ?thesis
          by (auto simp: expandEdge_def vertex_makeNode appendList_snoc)
      next
        case True
        with Inr notclosed walk assms(3)
        have "updateNodeInList ol ?nb = Inr ol'"
          by (simp add: expandEdge_def vertex_makeNode split: sum.splits)
        then have "set ol' \<subseteq> insert ?nb (set ol)" by (rule set_updateNodeInList)
        with assms(1) nb walk show ?thesis by blast
      qed
    qed
  qed
qed

lemma expandEdge_Inl: "expandEdge current dst G actors (Inl err) e = Inl err"
  by (simp add: expandEdge_def)

lemma fold_expandEdge_clear:
  assumes "\<forall>n\<in>set ol. clearOf actors src (reconstructPath n)"
    and "clearOf actors src (reconstructPath current)"
  shows "listFoldR (expandEdge current dst G actors) (Inr (ol, cl)) es = Inr (ol', cl')
         \<Longrightarrow> \<forall>n\<in>set ol'. clearOf actors src (reconstructPath n)"
proof (induction es arbitrary: ol' cl')
  case Nil
  with assms(1) show ?case by simp
next
  case (Cons e es)
  show ?case
  proof (cases "listFoldR (expandEdge current dst G actors) (Inr (ol, cl)) es")
    case (Inl err)
    with Cons.prems show ?thesis by (simp add: expandEdge_Inl)
  next
    case (Inr oc)
    obtain ol1 cl1 where oc: "oc = (ol1, cl1)" by (cases oc)
    have "\<forall>n\<in>set ol1. clearOf actors src (reconstructPath n)"
      using Cons.IH [of ol1 cl1] Inr oc by simp
    moreover have "expandEdge current dst G actors (Inr (ol1, cl1)) e = Inr (ol', cl')"
      using Cons.prems Inr oc by simp
    ultimately show ?thesis
      using expandEdge_clear [of ol1 actors src current dst G cl1 e ol' cl'] assms(2) by blast
  qed
qed

lemma pathfindingRec_clear:
  assumes "pathfindingRec ol cl dst G actors = Some r"
  shows "(\<forall>n\<in>set ol. clearOf actors src (reconstructPath n)) \<longrightarrow>
         (\<forall>path. r = Inr path \<longrightarrow> clearOf actors src path)"
proof (rule pathfindingRec.raw_induct [where P = "\<lambda>ol cl dst G actors r.
         (\<forall>n\<in>set ol. clearOf actors src (reconstructPath n)) \<longrightarrow>
         (\<forall>path. r = Inr path \<longrightarrow> clearOf actors src path)", OF _ assms], goal_cases)
  case (1 rec ol cl dst G actors r)
  show ?case
  proof (intro impI allI)
    fix path
    assume inv: "\<forall>n\<in>set ol. clearOf actors src (reconstructPath n)" and r: "r = Inr path"
    show "clearOf actors src path"
    proof (cases "ol = []")
      case True
      with 1(2) r show ?thesis by (simp add: isEmpty_def clearOf_def)
    next
      case nonempty: False
      show ?thesis
      proof (cases "extractClosestNode ol")
        case (Inl err)
        with nonempty 1(2) r show ?thesis by (simp add: isEmpty_def)
      next
        case (Inr current)
        then have cur: "clearOf actors src (reconstructPath current)"
          using inv extractClosestNode_mem by blast
        show ?thesis
        proof (cases "pos (vertex current) = dst")
          case True
          with nonempty Inr 1(2) r cur show ?thesis by (simp add: isEmpty_def)
        next
          case notdst: False
          let ?fold = "listFoldR (expandEdge current dst G actors)
                         (Inr (removeNodeFromList ol current, appendList cl current))
                         (adj (vertex current))"
          show ?thesis
          proof (cases ?fold)
            case (Inl err)
            with nonempty Inr notdst 1(2) r show ?thesis by (simp add: isEmpty_def)
          next
            case folded: (Inr oc)
            obtain ol1 cl1 where oc: "oc = (ol1, cl1)" by (cases oc)
            have inv0: "\<forall>n\<in>set (removeNodeFromList ol current).
                          clearOf actors src (reconstructPath n)"
              using inv set_removeNodeFromList [of ol current] by blast
            have inv1: "\<forall>n\<in>set ol1. clearOf actors src (reconstructPath n)"
              using fold_expandEdge_clear [OF inv0 cur] folded oc by simp
            have "rec ol1 cl1 dst G actors = Some r"
              using nonempty Inr notdst folded oc 1(2) by (simp add: isEmpty_def)
            from 1(1) [OF this] inv1 r show ?thesis by simp
          qed
        qed
      qed
    qed
  qed
qed

lemma sqrt_facts: "2 < sqrt 8" "1 < sqrt 5" "sqrt 4 = 2" "\<not> sqrt 8 < 2" "\<not> sqrt 5 < 1"
proof -
  have a: "2 < sqrt 8" by (rule real_less_rsqrt) simp
  have b: "1 < sqrt 5" by (rule real_less_rsqrt) simp
  show "\<not> sqrt 8 < 2" using a by simp
  show "\<not> sqrt 5 < 1" using b by simp
  show "2 < sqrt 8" by (rule real_less_rsqrt) simp
  show "1 < sqrt 5" by (rule real_less_rsqrt) simp
  show "sqrt 4 = 2" using real_sqrt_abs [of 2] by simp
qed

lemma walk3:
  "isWalkableByEnemy [worktop\<lparr>aid := 0, position := createPosition 1 0\<rparr>] p
     \<longleftrightarrow> p \<noteq> createPosition 1 0"
  by (simp add: isWalkableByEnemy_def getActorsAtPos_def worktop_def)

lemma path3:
  "map_option (map_sum id (map pos))
     (pathfinding (createPosition 0 0) (createPosition 2 0)
        (graph (the (buildWorld (createPosition 2 2))))
        [worktop\<lparr>aid := 0, position := createPosition 1 0\<rparr>])
   = Some (Inr [createPosition 0 0, createPosition 0 1, createPosition 1 1,
                createPosition 2 1, createPosition 2 0])"
  apply (simp add: buildWorld_2_2 pathfinding_def)
  apply (subst pathfindingRec.simps)
  apply (simp add: isEmpty_def makeNode_def positionDistance_def expandEdge_def walk3 sqrt_facts)
  apply (subst pathfindingRec.simps)
  apply (simp add: isEmpty_def makeNode_def positionDistance_def expandEdge_def walk3 sqrt_facts)
  apply (subst pathfindingRec.simps)
  apply (simp add: isEmpty_def makeNode_def positionDistance_def expandEdge_def walk3 sqrt_facts)
  apply (subst pathfindingRec.simps)
  apply (simp add: isEmpty_def makeNode_def positionDistance_def expandEdge_def walk3 sqrt_facts)
  apply (subst pathfindingRec.simps)
  apply (simp add: isEmpty_def makeNode_def positionDistance_def expandEdge_def walk3 sqrt_facts)
  done

lemma pathfinding_clear:
  assumes "pathfinding src dst G actors = Some (Inr path)"
  shows "\<forall>v\<in>set path. pos v \<noteq> src \<longrightarrow> isWalkableByEnemy actors (pos v)"
proof (cases "getVertexByPos (vertexes G) src")
  case (Inl err)
  with assms show ?thesis by (simp add: pathfinding_def)
next
  case (Inr v0)
  then have "pos v0 = src" using getVertexByPos_Inr by blast
  then have "\<forall>n\<in>set [makeNode None v0 dst]. clearOf actors src (reconstructPath n)"
    by (simp add: reconstructPath_root clearOf_def)
  moreover have "pathfindingRec [makeNode None v0 dst] [] dst G actors = Some (Inr path)"
    using assms Inr by (simp add: pathfinding_def)
  ultimately have "clearOf actors src path"
    using pathfindingRec_clear by blast
  then show ?thesis by (simp add: clearOf_def)
qed

lemma path3_vertices:
  "\<exists>p. pathfinding (createPosition 0 0) (createPosition 2 0)
          (graph (the (buildWorld (createPosition 2 2))))
          [worktop\<lparr>aid := 0, position := createPosition 1 0\<rparr>] = Some (Inr p)
       \<and> map pos p = [createPosition 0 0, createPosition 0 1, createPosition 1 1,
                       createPosition 2 1, createPosition 2 0]
       \<and> createPosition 1 0 \<notin> pos ` set p"
proof -
  let ?run = "pathfinding (createPosition 0 0) (createPosition 2 0)
                (graph (the (buildWorld (createPosition 2 2))))
                [worktop\<lparr>aid := 0, position := createPosition 1 0\<rparr>]"
  obtain p where run: "?run = Some (Inr p)"
    and ps: "map pos p = [createPosition 0 0, createPosition 0 1, createPosition 1 1,
                createPosition 2 1, createPosition 2 0]"
    using path3 by (cases ?run; cases "the ?run") auto
  have "pos ` set p = set (map pos p)" by simp
  then have notin: "createPosition 1 0 \<notin> pos ` set p"
    unfolding ps by simp
  show ?thesis
    by (rule exI [where x = p]) (intro conjI run ps notin)
qed

text \<open>
  Claim C2. Whenever \<open>pathfinding src dst G actors\<close> returns a path, every vertex of the
  path that is not at the source position is on a cell walkable by enemies, that is a cell
  holding no TOWER, WALL, SPAWNER or UNKNOWN actor. On the world of size (2, 2) with one
  WALL at (1, 0), the search from (0, 0) to (2, 0) returns the path (0,0), (0,1), (1,1),
  (2,1), (2,0), which does not contain (1, 0).
\<close>

theorem path_avoids_blocked_cells:
  "(pathfinding src dst G actors = Some (Inr path) \<longrightarrow>
      (\<forall>v\<in>set path. pos v \<noteq> src \<longrightarrow>
           isWalkableByEnemy actors (pos v)
           \<and> (\<forall>a\<in>set actors. position a = pos v \<longrightarrow>
                  atype a \<notin> {TOWER, WALL, SPAWNER, UNKNOWN})))
   \<and> (\<exists>p. pathfinding (createPosition 0 0) (createPosition 2 0)
          (graph (the (buildWorld (createPosition 2 2))))
          [worktop\<lparr>aid := 0, position := createPosition 1 0\<rparr>] = Some (Inr p)
       \<and> map pos p = [createPosition 0 0, createPosition 0 1, createPosition 1 1,
                       createPosition 2 1, createPosition 2 0]
       \<and> createPosition 1 0 \<notin> pos ` set p)"
proof (intro conjI impI ballI)
  fix v assume run: "pathfinding src dst G actors = Some (Inr path)"
    and v: "v \<in> set path" "pos v \<noteq> src"
  from pathfinding_clear [OF run] v
  show w: "isWalkableByEnemy actors (pos v)" by blast
  fix a assume a: "a \<in> set actors" "position a = pos v"
  with w have "atype a = ENEMY \<or> atype a = GOAL"
    unfolding isWalkableByEnemy_iff by blast
  then show "atype a \<notin> {TOWER, WALL, SPAWNER, UNKNOWN}" by auto
next
  show "\<exists>p. pathfinding (createPosition 0 0) (createPosition 2 0)
          (graph (the (buildWorld (createPosition 2 2))))
          [worktop\<lparr>aid := 0, position := createPosition 1 0\<rparr>] = Some (Inr p)
       \<and> map pos p = [createPosition 0 0, createPosition 0 1, createPosition 1 1,
                       createPosition 2 1, createPosition 2 0]
       \<and> createPosition 1 0 \<notin> pos ` set p"
    by (rule path3_vertices)
qed

theorem path_avoids_blocked_cells_witness:
  "\<not> isWalkableByEnemy [worktop\<lparr>aid := 0, position := createPosition 1 0\<rparr>]
         (createPosition 1 0)
   \<and> (\<exists>p.
         pathfinding (createPosition 0 0) (createPosition 2 0)
           (graph (the (buildWorld (createPosition 2 2))))
           [worktop\<lparr>aid := 0, position := createPosition 1 0\<rparr>] = Some (Inr p)
         \<and> map pos p = [createPosition 0 0, createPosition 0 1, createPosition 1 1,
                         createPosition 2 1, createPosition 2 0]
         \<and> list_all (\<lambda>v. pos v = createPosition 0 0
                \<or> isWalkableByEnemy [worktop\<lparr>aid := 0, position := createPosition 1 0\<rparr>] (pos v))
              p)"
proof -
  let ?actors = "[worktop\<lparr>aid := 0, position := createPosition 1 0\<rparr>]"
  let ?G = "graph (the (buildWorld (createPosition 2 2)))"
  obtain p where run: "pathfinding (createPosition 0 0) (createPosition 2 0) ?G ?actors
                         = Some (Inr p)"
    and ps: "map pos p = [createPosition 0 0, createPosition 0 1, createPosition 1 1,
                createPosition 2 1, createPosition 2 0]"
    using path3_vertices by (elim exE conjE)
  from path_avoids_blocked_cells
         [of "createPosition 0 0" "createPosition 2 0" ?G ?actors p] run
  have "\<forall>v\<in>set p. pos v \<noteq> createPosition 0 0 \<longrightarrow> isWalkableByEnemy ?actors (pos v)"
    by blast
  then have all: "list_all (\<lambda>v. pos v = createPosition 0 0 \<or> isWalkableByEnemy ?actors (pos v)) p"
    unfolding list_all_iff by blast
  have blocked: "\<not> isWalkableByEnemy ?actors (createPosition 1 0)"
    by (simp add: walk3)
  show ?thesis
    by (rule conjI [OF blocked]) (rule exI [where x = p], intro conjI run ps all)
qed

text \<open>
  Claim C10. When the source position is the position of no vertex of the graph,
  \<open>pathfinding\<close> throws the error of \<open>getVertexByPos\<close> and returns no path. When it is the
  position of a vertex, the first lookup succeeds, with a vertex at that position, and the
  search starts from it.
\<close>

theorem pathfinding_source_lookup:
  "(src \<notin> pos ` set (vertexes G) \<longrightarrow>
      pathfinding src dst G actors = Some (Inl (CantFindVertex src)))
   \<and> (src \<in> pos ` set (vertexes G) \<longrightarrow>
      (\<exists>v. getVertexByPos (vertexes G) src = Inr v \<and> pos v = src
           \<and> pathfinding src dst G actors
               = pathfindingRec [makeNode None v dst] [] dst G actors))"
proof (intro conjI impI)
  assume "src \<notin> pos ` set (vertexes G)"
  then show "pathfinding src dst G actors = Some (Inl (CantFindVertex src))"
    by (simp add: pathfinding_def getVertexByPos_absent)
next
  assume "src \<in> pos ` set (vertexes G)"
  then obtain v where v: "getVertexByPos (vertexes G) src = Inr v"
    using getVertexByPos_present by blast
  then have "pos v = src" using getVertexByPos_Inr by blast
  with v show "\<exists>v. getVertexByPos (vertexes G) src = Inr v \<and> pos v = src
           \<and> pathfinding src dst G actors
               = pathfindingRec [makeNode None v dst] [] dst G actors"
    by (simp add: pathfinding_def)
qed

theorem pathfinding_source_lookup_witness:
  "createPosition 5 5 \<notin> pos ` set (vertexes (graph (the (buildWorld (createPosition 2 2)))))
   \<and> pathfinding (createPosition 5 5) (createPosition 2 0)
        (graph (the (buildWorld (createPosition 2 2))))
        [worktop\<lparr>aid := 0, position := createPosition 1 0\<rparr>]
      = Some (Inl (CantFindVertex (createPosition 5 5)))
   \<and> createPosition 0 0 \<in> pos ` set (vertexes (graph (the (buildWorld (createPosition 2 2)))))
   \<and> (\<exists>v. getVertexByPos (vertexes (graph (the (buildWorld (createPosition 2 2)))))
              (createPosition 0 0) = Inr v \<and> pos v = createPosition 0 0)"
proof -
  let ?G = "graph (the (buildWorld (createPosition 2 2)))"
  let ?actors = "[worktop\<lparr>aid := 0, position := createPosition 1 0\<rparr>]"
  have out: "createPosition 5 5 \<notin> pos ` set (vertexes ?G)"
    by (simp add: buildWorld_2_2)
  have inside: "createPosition 0 0 \<in> pos ` set (vertexes ?G)"
    by (simp add: buildWorld_2_2)
  from pathfinding_source_lookup [of "createPosition 5 5" ?G "createPosition 2 0" ?actors] out
  have a: "pathfinding (createPosition 5 5) (createPosition 2 0) ?G ?actors
             = Some (Inl (CantFindVertex (createPosition 5 5)))"
    by blast
  from pathfinding_source_lookup [of "createPosition 0 0" ?G "createPosition 2 0" ?actors] inside
  have b: "\<exists>v. getVertexByPos (vertexes ?G) (createPosition 0 0) = Inr v
               \<and> pos v = createPosition 0 0"
    by blast
  from out a inside b show ?thesis by blast
qed

end
